theory Spec2Isabelle
  imports Complex_Main "HOL-Library.AList"
begin

section \<open>Evaluation of speed-estimation logs (evaluate.py)\<close>

text \<open>
  A shallow embedding of \<^verbatim>\<open>speed_estimation/modules/evaluation/evaluate.py\<close>.
  Python floats are idealised as exact rationals; the one float value whose behaviour the
  code depends on, NaN, is kept as a value of its own. A raised exception is the \<open>Inl\<close>
  branch of a sum. What the code does to the outside (opening files, printing, reading the
  ground-truth CSV, showing or writing a chart, writing the summary) is recorded in a trace.

  The libraries are modelled as far as the code uses them. The values of a log record
  are numbers, with \<open>null\<close> read as NaN. The ground-truth CSV has its three columns. The
  chart renderer and the writers of images and CSV files always succeed.
\<close>

subsection \<open>Values, errors and effects\<close>

datatype cell = NaN | Num rat

datatype py_error =
    FileNotFoundError string
  | JSONDecodeError
  | KeyError string
  | IndexError
  | ValueError
  | TypeError
  | Exception string

text \<open>A parsed JSON object: its keys with their values, as \<open>json.loads\<close> returns it.\<close>

type_synonym pydict = "(string \<times> cell) list"

text \<open>
  A pandas DataFrame built from a list of dicts: its columns are the keys that occur in
  some dict, in the order of their first occurrence, and it has one row per dict.
  Selecting rows keeps the columns.
\<close>

record frame =
  columns :: "string list"
  rows :: "pydict list"

text \<open>One row of the ground-truth table \<open>cars.csv\<close> (columns start, end, speed).\<close>

record car =
  car_start :: cell
  car_end :: cell
  car_speed :: cell

text \<open>The final table, column by column, in column order.\<close>

type_synonym table = "(string \<times> cell list) list"

record figure =
  title :: string
  data_frame :: table
  x_axis :: string
  y_axis :: "string list"

datatype effect =
    OpenLog string
  | Print string
  | ReadCsv string
  | ShowFig figure
  | WriteImage string figure
  | ToCsv string "(string \<times> cell) list"

text \<open>
  The outside world of one call: the text files by path (a file is the list of its lines,
  each with its line end), the ground-truth tables \<open>pd.read_csv\<close> finds by path, the parser
  \<open>json.loads\<close> (\<open>None\<close> when it raises), and the 32 hexadecimal digits \<open>uuid.uuid4().hex\<close>
  returns in this call.
\<close>

record world =
  files :: "string \<Rightarrow> string list option"
  csv_files :: "string \<Rightarrow> car list option"
  json_loads :: "string \<Rightarrow> pydict option"
  uuid4_hex :: string

subsection \<open>String operations of Python\<close>

definition startswith :: "string \<Rightarrow> string \<Rightarrow> bool" where
  "startswith s p = (take (length p) s = p)"

text \<open>\<open>s.strip(c)\<close> for a single character: drop it from both ends.\<close>

definition py_strip :: "string \<Rightarrow> char \<Rightarrow> string" where
  "py_strip s c = rev (dropWhile (\<lambda>a. a = c) (rev (dropWhile (\<lambda>a. a = c) s)))"

text \<open>\<open>s.split(c)\<close> for a single character: never the empty list.\<close>

fun py_split :: "string \<Rightarrow> char \<Rightarrow> string list" where
  "py_split [] c = [[]]"
| "py_split (a # s) c =
     (if a = c then [] # py_split s c
      else (case py_split s c of [] \<Rightarrow> [[a]] | h # t \<Rightarrow> (a # h) # t))"

text \<open>
  \<open>re.search("Video: (.*)", line)\<close> and its group 1: the leftmost place where the
  literal stands, and the text after it up to the line feed, which the dot does not match.
\<close>

fun re_search_video :: "string \<Rightarrow> string option" where
  "re_search_video [] = None"
| "re_search_video (a # s) =
     (if startswith (a # s) ''Video: ''
      then Some (takeWhile (\<lambda>b. b \<noteq> CHR 0x0A) (drop 7 (a # s)))
      else re_search_video s)"

text \<open>The f-string rendering of a value that is a string or \<open>None\<close>.\<close>

definition str_of :: "string option \<Rightarrow> string" where
  "str_of v = (case v of None \<Rightarrow> ''None'' | Some s \<Rightarrow> s)"

subsection \<open>The log loader\<close>

definition has_key :: "pydict \<Rightarrow> string \<Rightarrow> bool" where
  "has_key d k = (map_of d k \<noteq> None)"

definition DataFrame :: "pydict list \<Rightarrow> frame" where
  "DataFrame ds = \<lparr>columns = rev (remdups (rev (concat (map (map fst) ds)))), rows = ds\<rparr>"

text \<open>
  The body of the loop over the lines of the file, from line \<open>idx\<close> on; the state is
  \<open>cars_path\<close> and \<open>avg_speeds\<close>, and the prints are collected.
\<close>

fun load_lines ::
  "world \<Rightarrow> nat \<Rightarrow> string list \<Rightarrow> string option \<Rightarrow> pydict list \<Rightarrow>
     effect list \<times> (py_error + string option \<times> pydict list)" where
  "load_lines w idx [] cars_path avg_speeds = ([], Inr (cars_path, avg_speeds))"
| "load_lines w idx (line # ls) cars_path avg_speeds =
     (let cars_path' =
            (if idx = 0
             then (case re_search_video line of None \<Rightarrow> cars_path | Some g \<Rightarrow> Some g)
             else cars_path);
          out = (if idx = 0
                 then [Print (''Found cars path from log: '' @ str_of cars_path')]
                 else [])
      in if \<not> startswith line ''INFO:root:{''
         then (case load_lines w (Suc idx) ls cars_path' avg_speeds of
                 (es, r) \<Rightarrow> (out @ es, r))
         else (case json_loads w (drop 10 line) of
                 None \<Rightarrow> (out, Inl JSONDecodeError)
               | Some line_dict \<Rightarrow>
                   (case load_lines w (Suc idx) ls cars_path'
                           (if has_key line_dict ''avgSpeedTowards''
                            then avg_speeds @ [line_dict] else avg_speeds) of
                      (es, r) \<Rightarrow> (out @ es, r))))"

definition video_id_of :: "string \<Rightarrow> string" where
  "video_id_of cars_path = last (py_split (py_strip cars_path CHR ''/'') CHR ''/'')"

definition load_log ::
  "world \<Rightarrow> string \<Rightarrow> effect list \<times> (py_error + string \<times> frame \<times> string option)" where
  "load_log w log_path =
     (case files w log_path of
        None \<Rightarrow> ([OpenLog log_path], Inl (FileNotFoundError log_path))
      | Some ls \<Rightarrow>
          (case load_lines w 0 ls None [] of
             (es, Inl err) \<Rightarrow> (OpenLog log_path # es, Inl err)
           | (es, Inr (cars_path, avg_speeds)) \<Rightarrow>
               (let video_id = (case cars_path of None \<Rightarrow> ''-1'' | Some p \<Rightarrow> video_id_of p);
                    estimation = DataFrame avg_speeds
                in (OpenLog log_path # es,
                    Inr (video_id @ ''_depth_'' @ ''0'', estimation, cars_path)))))"

subsection \<open>The window aggregators\<close>

text \<open>\<open>Series.gt\<close> and \<open>Series.le\<close> on one element: a comparison with NaN is false.\<close>

definition gt :: "cell \<Rightarrow> int \<Rightarrow> bool" where
  "gt c n = (case c of NaN \<Rightarrow> False | Num v \<Rightarrow> of_int n < v)"

definition le :: "cell \<Rightarrow> int \<Rightarrow> bool" where
  "le c n = (case c of NaN \<Rightarrow> False | Num v \<Rightarrow> v \<le> of_int n)"

text \<open>\<open>Series.mean()\<close>: NaN entries are skipped; the mean of nothing is NaN.\<close>

definition mean :: "cell list \<Rightarrow> cell" where
  "mean cs =
     (let vs = concat (map (\<lambda>c. case c of NaN \<Rightarrow> [] | Num v \<Rightarrow> [v]) cs)
      in if vs = [] then NaN else Num (sum_list vs / of_nat (length vs)))"

text \<open>The value of a row in a column: NaN where the dict had no such key.\<close>

definition cell_of :: "string \<Rightarrow> pydict \<Rightarrow> cell" where
  "cell_of k r = (case map_of r k of None \<Rightarrow> NaN | Some v \<Rightarrow> v)"

text \<open>\<open>df[k]\<close>: the column, or KeyError when the frame has no such column.\<close>

definition getitem :: "frame \<Rightarrow> string \<Rightarrow> py_error + cell list" where
  "getitem df k = (if k \<in> set (columns df) then Inr (map (cell_of k) (rows df)) else Inl (KeyError k))"

text \<open>\<open>df.loc[keep]\<close> for a boolean series: the rows whose entry is true.\<close>

definition loc :: "frame \<Rightarrow> bool list \<Rightarrow> frame" where
  "loc df keep = df\<lparr>rows := map snd (filter fst (zip keep (rows df)))\<rparr>"

definition cars_to_avg :: "car list \<Rightarrow> int \<Rightarrow> int \<Rightarrow> car list" where
  "cars_to_avg cars_truth timeStart timeEnd =
     map snd (filter fst
       (zip (map (\<lambda>c. gt (car_start c) timeStart \<and> le (car_end c) timeEnd) cars_truth)
            cars_truth))"

definition avg_speed_for_time_ground_truth :: "car list \<Rightarrow> int \<Rightarrow> int \<Rightarrow> cell" where
  "avg_speed_for_time_ground_truth cars_truth timeStart timeEnd =
     mean (map car_speed (cars_to_avg cars_truth timeStart timeEnd))"

definition estimation_avg :: "frame \<Rightarrow> int \<Rightarrow> int \<Rightarrow> py_error + frame" where
  "estimation_avg estimation timeStart timeEnd =
     (let timeStart' = timeStart * 50; timeEnd' = timeEnd * 50
      in case getitem estimation ''frameId'' of
           Inl err \<Rightarrow> Inl err
         | Inr frameId \<Rightarrow>
             Inr (loc estimation (map (\<lambda>f. gt f timeStart' \<and> le f timeEnd') frameId)))"

definition avg_speed_for_time_estimation :: "frame \<Rightarrow> int \<Rightarrow> int \<Rightarrow> py_error + cell" where
  "avg_speed_for_time_estimation estimation timeStart timeEnd =
     (case estimation_avg estimation timeStart timeEnd of
        Inl err \<Rightarrow> Inl err
      | Inr sel \<Rightarrow>
          (case getitem sel ''avgSpeedTowards'' of
             Inl err \<Rightarrow> Inl err
           | Inr speeds \<Rightarrow> Inr (mean speeds)))"

subsection \<open>The alignment engine\<close>

text \<open>\<open>range(a, b, step)\<close> for a positive step.\<close>

function py_range :: "int \<Rightarrow> int \<Rightarrow> int \<Rightarrow> int list" where
  "py_range a b step = (if 0 < step \<and> a < b then a # py_range (a + step) b step else [])"
  by pat_completeness auto
termination
  by (relation "measure (\<lambda>(a, b, step). nat (b - a))") auto

declare py_range.simps [simp del]

text \<open>The dict comprehension \<open>{k: [] for k in run_ids}\<close>: a repeated key is one key.\<close>

definition empty_estimations :: "string list \<Rightarrow> (string \<times> cell list) list" where
  "empty_estimations run_ids = fold (\<lambda>k d. AList.update k [] d) run_ids []"

text \<open>
  The inner loop over \<open>enumerate(run_ids)\<close>: \<open>estimations[id]\<close> is looked up, then
  \<open>loaded_avg_speeds[idx]\<close> is read and aggregated, then the mean is appended.
\<close>

fun append_estimations ::
  "(nat \<times> string) list \<Rightarrow> frame list \<Rightarrow> int \<Rightarrow> int \<Rightarrow> (string \<times> cell list) list \<Rightarrow>
     py_error + (string \<times> cell list) list" where
  "append_estimations [] loaded_avg_speeds start end' estimations = Inr estimations"
| "append_estimations ((idx, ident) # rest) loaded_avg_speeds start end' estimations =
     (case map_of estimations ident of
        None \<Rightarrow> Inl (KeyError ident)
      | Some series \<Rightarrow>
          if length loaded_avg_speeds \<le> idx then Inl IndexError
          else (case avg_speed_for_time_estimation (loaded_avg_speeds ! idx) start end' of
                  Inl err \<Rightarrow> Inl err
                | Inr m \<Rightarrow>
                    append_estimations rest loaded_avg_speeds start end'
                      (AList.update ident (series @ [m]) estimations)))"

text \<open>The outer loop over the window starts.\<close>

fun window_loop ::
  "int list \<Rightarrow> string list \<Rightarrow> frame list \<Rightarrow> car list \<Rightarrow>
     cell list \<times> (string \<times> cell list) list \<times> int list \<Rightarrow>
     py_error + cell list \<times> (string \<times> cell list) list \<times> int list" where
  "window_loop [] run_ids loaded_avg_speeds ground_truth st = Inr st"
| "window_loop (start # starts) run_ids loaded_avg_speeds ground_truth
       (truth, estimations, timestamps) =
     (let end' = start + 60;
          truth' = truth @ [avg_speed_for_time_ground_truth ground_truth start end']
      in case append_estimations (zip [0..<length run_ids] run_ids) loaded_avg_speeds
                start end' estimations of
           Inl err \<Rightarrow> Inl err
         | Inr estimations' \<Rightarrow>
             window_loop starts run_ids loaded_avg_speeds ground_truth
               (truth', estimations', timestamps @ [end']))"

definition generate_aligned_estimations ::
  "string list \<Rightarrow> frame list \<Rightarrow> car list \<Rightarrow>
     py_error + cell list \<times> (string \<times> cell list) list \<times> int list" where
  "generate_aligned_estimations run_ids loaded_avg_speeds ground_truth =
     window_loop (py_range 300 (30 * 60) 60) run_ids loaded_avg_speeds ground_truth
       ([], empty_estimations run_ids, [])"

subsection \<open>The report builder\<close>

text \<open>\<open>list(map(__load_log, logs))\<close>: the logs are loaded in order; the first failure ends the call.\<close>

fun load_logs ::
  "world \<Rightarrow> string list \<Rightarrow>
     effect list \<times> (py_error + (string \<times> frame \<times> string option) list)" where
  "load_logs w [] = ([], Inr [])"
| "load_logs w (log_path # logs) =
     (case load_log w log_path of
        (es, Inl err) \<Rightarrow> (es, Inl err)
      | (es, Inr r) \<Rightarrow>
          (case load_logs w logs of
             (es', Inl err) \<Rightarrow> (es @ es', Inl err)
           | (es', Inr rs) \<Rightarrow> (es @ es', Inr (r # rs))))"

text \<open>The loop that compares every video path with the first one.\<close>

fun same_video :: "string option \<Rightarrow> string option list \<Rightarrow> py_error + unit" where
  "same_video cars_path [] = Inr ()"
| "same_video cars_path (c # cs) =
     (if c \<noteq> cars_path
      then Inl (Exception ''Can only evaluate logs of the same video in one call!'')
      else same_video cars_path cs)"

text \<open>
  The dict \<open>{"truth": truth, **estimations, "timestamps": timestamps}\<close>: a key that is
  written again keeps its place and takes the new value.
\<close>

definition table_dict ::
  "cell list \<Rightarrow> (string \<times> cell list) list \<Rightarrow> int list \<Rightarrow> table" where
  "table_dict truth estimations timestamps =
     AList.update ''timestamps'' (map (\<lambda>t. Num (of_int t)) timestamps)
       (fold (\<lambda>kv d. AList.update (fst kv) (snd kv) d) estimations [(''truth'', truth)])"

text \<open>\<open>pd.DataFrame(dict)\<close> on a dict of lists: the lists must have one length.\<close>

definition DataFrame_of_dict :: "table \<Rightarrow> py_error + table" where
  "DataFrame_of_dict d =
     (case d of
        [] \<Rightarrow> Inr []
      | kc # rest \<Rightarrow>
          if list_all (\<lambda>kc'. length (snd kc') = length (snd kc)) rest then Inr d
          else Inl ValueError)"

definition nrows :: "table \<Rightarrow> nat" where
  "nrows df = (case df of [] \<Rightarrow> 0 | kc # rest \<Rightarrow> length (snd kc))"

text \<open>\<open>df.dropna(axis=0)\<close>: a row stays when no column has NaN in it.\<close>

definition notna_rows :: "table \<Rightarrow> bool list" where
  "notna_rows df = map (\<lambda>i. list_all (\<lambda>kc. snd kc ! i \<noteq> NaN) df) [0..<nrows df]"

definition dropna :: "table \<Rightarrow> table" where
  "dropna df =
     (let keep = notna_rows df
      in map (\<lambda>kc. (fst kc, map snd (filter fst (zip keep (snd kc))))) df)"

text \<open>Float subtraction: NaN when an operand is NaN.\<close>

definition cell_sub :: "cell \<Rightarrow> cell \<Rightarrow> cell" where
  "cell_sub a b =
     (case a of NaN \<Rightarrow> NaN | Num u \<Rightarrow> (case b of NaN \<Rightarrow> NaN | Num v \<Rightarrow> Num (u - v)))"

text \<open>\<open>df[run_id_list]\<close>: the columns of the runs; KeyError when one is missing.\<close>

fun getitems :: "table \<Rightarrow> string list \<Rightarrow> py_error + (string \<times> cell list) list" where
  "getitems df [] = Inr []"
| "getitems df (k # ks) =
     (case map_of df k of
        None \<Rightarrow> Inl (KeyError k)
      | Some c \<Rightarrow> (case getitems df ks of Inl err \<Rightarrow> Inl err | Inr r \<Rightarrow> Inr ((k, c) # r)))"

text \<open>
  The assignment \<open>df[run_id_list] = df[run_id_list].sub(df["truth"], axis=0)\<close>: each
  run column becomes, row by row, its value minus the truth value.
\<close>

definition sub_truth :: "table \<Rightarrow> string list \<Rightarrow> py_error + table" where
  "sub_truth df run_id_list =
     (case getitems df run_id_list of
        Inl err \<Rightarrow> Inl err
      | Inr runs \<Rightarrow>
          (case map_of df ''truth'' of
             None \<Rightarrow> Inl (KeyError ''truth'')
           | Some truth \<Rightarrow>
               Inr (fold (\<lambda>kc d. AList.update (fst kc)
                            (map (\<lambda>ab. cell_sub (fst ab) (snd ab)) (zip (snd kc) truth)) d)
                      runs df)))"

text \<open>\<open>df[run_id_list].mean(axis=0)\<close>: the mean of each run's column, by run id.\<close>

definition column_means :: "table \<Rightarrow> string list \<Rightarrow> py_error + (string \<times> cell) list" where
  "column_means df run_id_list =
     (case getitems df run_id_list of
        Inl err \<Rightarrow> Inl err
      | Inr runs \<Rightarrow> Inr (map (\<lambda>kc. (fst kc, mean (snd kc))) runs))"

text \<open>\<open>os.path.join(a, b)\<close> on POSIX.\<close>

definition path_join :: "string \<Rightarrow> string \<Rightarrow> string" where
  "path_join a b =
     (if startswith b ''/'' then b
      else if a = [] \<or> last a = CHR ''/'' then a @ b
      else a @ ''/'' @ b)"

text \<open>
  The part of \<open>plot_absolute_error\<close> after the alignment. \<open>save_file_path\<close> is a string
  or \<open>None\<close>; a call that leaves it out passes the default, the empty string.
  \<open>os.path.join(None, ...)\<close> raises TypeError.
\<close>

definition report ::
  "world \<Rightarrow> string list \<Rightarrow> string \<Rightarrow> cell list \<Rightarrow> (string \<times> cell list) list \<Rightarrow> int list \<Rightarrow>
     string option \<Rightarrow> effect list \<times> (py_error + unit)" where
  "report w run_ids cars_path truth estimations timestamps save_file_path =
     (let video_id = video_id_of cars_path
      in case DataFrame_of_dict (table_dict truth estimations timestamps) of
           Inl err \<Rightarrow> ([], Inl err)
         | Inr df0 \<Rightarrow>
            (let df = dropna df0;
                 fig = \<lparr>title = ''Absolute Estimations ('' @ cars_path @ '')'',
                        data_frame = df, x_axis = ''timestamps'', y_axis = map fst df\<rparr>;
                 ident = take 10 (uuid4_hex w)
             in case (if save_file_path \<noteq> Some []
                      then (case save_file_path of
                              None \<Rightarrow> Inl TypeError
                            | Some dir \<Rightarrow>
                                Inr (WriteImage
                                  (path_join dir (video_id @ ''_'' @ ident @ ''_estimations.pdf''))
                                  fig))
                      else Inr (ShowFig fig)) of
                  Inl err \<Rightarrow> ([], Inl err)
                | Inr out1 \<Rightarrow>
                   (case sub_truth df run_ids of
                      Inl err \<Rightarrow> ([out1], Inl err)
                    | Inr df' \<Rightarrow>
                       (let fig' = \<lparr>title = ''Mean Absolute Error ('' @ cars_path @ '')'',
                                    data_frame = df', x_axis = ''timestamps'',
                                    y_axis = tl (map fst df')\<rparr>;
                            out2 = (case save_file_path of
                                      Some dir \<Rightarrow>
                                        WriteImage
                                          (path_join dir (video_id @ ''_'' @ ident @ ''_mae.pdf''))
                                          fig'
                                    | None \<Rightarrow> ShowFig fig')
                        in case save_file_path of
                             None \<Rightarrow> ([out1, out2], Inr ())
                           | Some dir \<Rightarrow>
                               (case column_means df' run_ids of
                                  Inl err \<Rightarrow> ([out1, out2], Inl err)
                                | Inr means \<Rightarrow>
                                    ([out1, out2,
                                      ToCsv (path_join dir
                                               (video_id @ ''_'' @ ident @ ''_error.csv''))
                                            means],
                                     Inr ()))))))"

text \<open>
  The entry point. Unpacking \<open>zip(*[])\<close> into three names raises ValueError; adding
  \<open>"cars.csv"\<close> to \<open>None\<close> raises TypeError.
\<close>

definition plot_absolute_error ::
  "world \<Rightarrow> string list \<Rightarrow> string option \<Rightarrow> effect list \<times> (py_error + unit)" where
  "plot_absolute_error w logs save_file_path =
     (case load_logs w logs of
        (es, Inl err) \<Rightarrow> (es, Inl err)
      | (es, Inr results) \<Rightarrow>
          (case results of
             [] \<Rightarrow> (es, Inl ValueError)
           | r # rs \<Rightarrow>
              (let run_ids = map fst results;
                   loaded_avg_speeds = map (\<lambda>r. fst (snd r)) results;
                   cars_paths = map (\<lambda>r. snd (snd r)) results;
                   cars_path = snd (snd r)
               in case same_video cars_path cars_paths of
                    Inl err \<Rightarrow> (es, Inl err)
                  | Inr u \<Rightarrow>
                     (case cars_path of
                        None \<Rightarrow> (es, Inl TypeError)
                      | Some p \<Rightarrow>
                         (case csv_files w (p @ ''cars.csv'') of
                            None \<Rightarrow>
                              (es @ [ReadCsv (p @ ''cars.csv'')],
                               Inl (FileNotFoundError (p @ ''cars.csv'')))
                          | Some cars \<Rightarrow>
                             (case generate_aligned_estimations run_ids loaded_avg_speeds cars of
                                Inl err \<Rightarrow> (es @ [ReadCsv (p @ ''cars.csv'')], Inl err)
                              | Inr (truth, estimations, timestamps) \<Rightarrow>
                                 (case report w run_ids p truth estimations timestamps
                                         save_file_path of
                                    (es', res) \<Rightarrow>
                                      (es @ [ReadCsv (p @ ''cars.csv'')] @ es', res))))))))"

subsection \<open>Notions of the specification\<close>

text \<open>
  A log is well formed when every candidate line (one that starts with the record marker)
  parses once the first ten characters are stripped.
\<close>

definition parses :: "world \<Rightarrow> string \<Rightarrow> bool" where
  "parses w line = (\<not> startswith line ''INFO:root:{'' \<or> json_loads w (drop 10 line) \<noteq> None)"

text \<open>The record a line contributes: that of a candidate line whose record has the speed key.\<close>

definition speed_record :: "world \<Rightarrow> string \<Rightarrow> pydict option" where
  "speed_record w line =
     (if startswith line ''INFO:root:{''
      then (case json_loads w (drop 10 line) of
              None \<Rightarrow> None
            | Some d \<Rightarrow> if has_key d ''avgSpeedTowards'' then Some d else None)
      else None)"

text \<open>The video path a log carries: what the marker pattern finds in its first line.\<close>

definition first_line_video :: "string list \<Rightarrow> string option" where
  "first_line_video ls = (case ls of [] \<Rightarrow> None | line # rest \<Rightarrow> re_search_video line)"

text \<open>The last segment of a path: what follows its last slash.\<close>

definition last_segment :: "string \<Rightarrow> string" where
  "last_segment s = rev (takeWhile (\<lambda>a. a \<noteq> CHR ''/'') (rev s))"

text \<open>A path with its trailing slashes stripped.\<close>

definition strip_trailing :: "string \<Rightarrow> string" where
  "strip_trailing s = rev (dropWhile (\<lambda>a. a = CHR ''/'') (rev s))"

text \<open>A column of the final table by name.\<close>

definition column :: "table \<Rightarrow> string \<Rightarrow> cell list" where
  "column df k = (case map_of df k of None \<Rightarrow> [] | Some c \<Rightarrow> c)"

text \<open>The windows that stay in the table: those where no column has NaN.\<close>

definition retained :: "table \<Rightarrow> nat list" where
  "retained df = filter (\<lambda>i. list_all (\<lambda>kc. snd kc ! i \<noteq> NaN) df) [0..<nrows df]"

text \<open>
  The effects of loading a log. All others come after the loading: reading the ground
  truth, showing a chart, writing a chart or the summary.
\<close>

definition loading_effect :: "effect \<Rightarrow> bool" where
  "loading_effect e = (case e of OpenLog p \<Rightarrow> True | Print s \<Rightarrow> True | _ \<Rightarrow> False)"

subsection \<open>An example world\<close>

text \<open>
  The scenario of the specification: a video \<open>/data/videoA/\<close> with one ground-truth
  row (start 350, end 360, speed 40) and logs of it. \<open>a.log\<close> and \<open>b.log\<close> hold the video
  line, a speed record at frame 18000, a record without the speed key and a line that is no
  record; \<open>quiet.log\<close> holds the video line only; \<open>anon.log\<close> has no video line;
  \<open>other.log\<close> is of another video.
\<close>

definition speed_line :: string where
  \<open>speed_line = ''INFO:root:{"frameId": 18000, "avgSpeedTowards": 42.0}'' @ [CHR 0x0A]\<close>

definition count_line :: string where
  \<open>count_line = ''INFO:root:{"frameId": 18001, "cars": 3}'' @ [CHR 0x0A]\<close>

definition debug_line :: string where
  "debug_line = ''DEBUG:root:next frame'' @ [CHR 0x0A]"

definition example_files :: "string \<Rightarrow> string list option" where
  "example_files path =
     (if path = ''a.log'' \<or> path = ''b.log''
      then Some [''Video: /data/videoA/'' @ [CHR 0x0A], speed_line, count_line, debug_line]
      else if path = ''quiet.log'' then Some [''Video: /data/videoA/'' @ [CHR 0x0A], debug_line]
      else if path = ''anon.log'' then Some [debug_line, speed_line]
      else if path = ''other.log'' then Some [''Video: /data/videoB/'' @ [CHR 0x0A], speed_line]
      else None)"

definition example_loads :: "string \<Rightarrow> pydict option" where
  "example_loads s =
     (if s = drop 10 speed_line
      then Some [(''frameId'', Num 18000), (''avgSpeedTowards'', Num 42)]
      else if s = drop 10 count_line
      then Some [(''frameId'', Num 18001), (''cars'', Num 3)]
      else None)"

definition example_csv :: "string \<Rightarrow> car list option" where
  "example_csv path =
     (if path = ''/data/videoA/cars.csv''
      then Some [\<lparr>car_start = Num 350, car_end = Num 360, car_speed = Num 40\<rparr>]
      else None)"

definition example_world :: world where
  "example_world =
     \<lparr>files = example_files, csv_files = example_csv, json_loads = example_loads,
      uuid4_hex = ''0123456789abcdef0123456789abcdef''\<rparr>"

section \<open>Properties\<close>

subsection \<open>The log loader\<close>

lemma load_lines_rows:
  "list_all (parses w) ls \<Longrightarrow>
   \<exists>es cp'. load_lines w idx ls cp acc = (es, Inr (cp', acc @ List.map_filter (speed_record w) ls))"
proof (induction ls arbitrary: idx cp acc)
  case Nil
  then show ?case by (simp add: List.map_filter_simps)
next
  case (Cons l ls)
  from Cons.prems have p: "parses w l" and ps: "list_all (parses w) ls" by simp_all
  define cp1 where
    "cp1 = (if idx = 0 then (case re_search_video l of None \<Rightarrow> cp | Some g \<Rightarrow> Some g) else cp)"
  show ?case
  proof (cases "startswith l ''INFO:root:{''")
    case False
    obtain es cp' where
      "load_lines w (Suc idx) ls cp1 acc = (es, Inr (cp', acc @ List.map_filter (speed_record w) ls))"
      using Cons.IH[OF ps] by blast
    moreover have "speed_record w l = None"
      using False by (simp add: speed_record_def)
    ultimately show ?thesis using False
      by (simp add: Let_def cp1_def List.map_filter_simps)
  next
    case True
    then obtain d where d: "json_loads w (drop 10 l) = Some d"
      using p by (auto simp: parses_def)
    define acc1 where "acc1 = (if has_key d ''avgSpeedTowards'' then acc @ [d] else acc)"
    obtain es cp' where
      "load_lines w (Suc idx) ls cp1 acc1 = (es, Inr (cp', acc1 @ List.map_filter (speed_record w) ls))"
      using Cons.IH[OF ps] by blast
    moreover have "speed_record w l = (if has_key d ''avgSpeedTowards'' then Some d else None)"
      using True d by (simp add: speed_record_def)
    ultimately show ?thesis using True d
      by (simp add: Let_def cp1_def acc1_def List.map_filter_simps)
  qed
qed

lemma load_lines_later:
  "load_lines w (Suc n) ls cp acc = (es, Inr (cp', obs)) \<Longrightarrow> cp' = cp"
  by (induction ls arbitrary: n acc es)
     (auto simp: Let_def split: if_splits option.splits prod.splits)

lemma load_lines_cars_path:
  "load_lines w 0 ls None acc = (es, Inr (cp', obs)) \<Longrightarrow> cp' = first_line_video ls"
  by (cases ls)
     (auto simp: Let_def first_line_video_def split: if_splits option.splits prod.splits
           dest: load_lines_later)

lemma load_lines_parses:
  "load_lines w idx ls cp acc = (es, Inr r) \<Longrightarrow> list_all (parses w) ls"
  by (induction ls arbitrary: idx cp acc es)
     (auto simp: Let_def parses_def split: if_splits option.splits prod.splits)

lemma length_map_filter: "length (List.map_filter f xs) = length (filter (\<lambda>a. f a \<noteq> None) xs)"
  by (induction xs) (auto simp: List.map_filter_simps split: option.splits)

lemma speed_record_Some:
  "(speed_record w line \<noteq> None) =
     (startswith line ''INFO:root:{'' \<and>
      (\<exists>d. json_loads w (drop 10 line) = Some d \<and> has_key d ''avgSpeedTowards''))"
  by (auto simp: speed_record_def split: option.splits)

lemma candidates_split:
  "list_all (parses w) ls \<Longrightarrow>
   length (filter (\<lambda>line. startswith line ''INFO:root:{'') ls) =
     length (filter (\<lambda>line. speed_record w line \<noteq> None) ls) +
     length (filter (\<lambda>line. startswith line ''INFO:root:{'' \<and>
               (\<exists>d. json_loads w (drop 10 line) = Some d \<and> \<not> has_key d ''avgSpeedTowards'')) ls)"
  by (induction ls) (auto simp: parses_def speed_record_def split: option.splits)

lemma load_log_result:
  assumes "files w log_path = Some ls" and "list_all (parses w) ls"
  shows "\<exists>es. load_log w log_path =
           (es, Inr ((case first_line_video ls of None \<Rightarrow> ''-1'' | Some p \<Rightarrow> video_id_of p)
                       @ ''_depth_0'',
                     DataFrame (List.map_filter (speed_record w) ls), first_line_video ls))"
proof -
  obtain es cp' where l: "load_lines w 0 ls None [] = (es, Inr (cp', [] @ List.map_filter (speed_record w) ls))"
    using load_lines_rows[OF assms(2)] by blast
  then have "cp' = first_line_video ls"
    by (rule load_lines_cars_path)
  then show ?thesis using l assms(1)
    by (simp add: load_log_def)
qed

lemma load_log_Inr:
  assumes "load_log w log_path = (es, Inr r)"
  shows "\<exists>ls. files w log_path = Some ls \<and> list_all (parses w) ls"
proof (cases "files w log_path")
  case None
  then show ?thesis using assms by (simp add: load_log_def)
next
  case (Some ls)
  obtain es' r' where l: "load_lines w 0 ls None [] = (es', r')"
    by (cases "load_lines w 0 ls None []") auto
  then obtain r'' where "r' = Inr r''"
    using assms Some by (cases r') (auto simp: load_log_def)
  then show ?thesis using l Some load_lines_parses by blast
qed

text \<open>
  C7. For a well-formed log (every candidate line parses) the load returns, and the rows of
  the loaded table are the records of the candidate lines that carry the speed key, in line
  order: as many observations as there are lines that start with the marker and parse to a
  record with the key. Every candidate line is either kept or discarded for lacking the
  key; the other lines contribute nothing.
\<close>

theorem load_log_observation_count:
  assumes "files w log_path = Some ls" and "list_all (parses w) ls"
  shows "\<exists>es run_id estimation cars_path.
           load_log w log_path = (es, Inr (run_id, estimation, cars_path)) \<and>
           rows estimation = List.map_filter (speed_record w) ls \<and>
           length (rows estimation) =
             length (filter (\<lambda>line. startswith line ''INFO:root:{'' \<and>
                        (\<exists>d. json_loads w (drop 10 line) = Some d \<and>
                             has_key d ''avgSpeedTowards'')) ls) \<and>
           length (filter (\<lambda>line. startswith line ''INFO:root:{'') ls) =
             length (rows estimation) +
             length (filter (\<lambda>line. startswith line ''INFO:root:{'' \<and>
                        (\<exists>d. json_loads w (drop 10 line) = Some d \<and>
                             \<not> has_key d ''avgSpeedTowards'')) ls)"
proof -
  obtain es where "load_log w log_path =
           (es, Inr ((case first_line_video ls of None \<Rightarrow> ''-1'' | Some p \<Rightarrow> video_id_of p)
                       @ ''_depth_0'',
                     DataFrame (List.map_filter (speed_record w) ls), first_line_video ls))"
    using load_log_result[OF assms] by blast
  moreover have "rows (DataFrame (List.map_filter (speed_record w) ls)) =
      List.map_filter (speed_record w) ls"
    by (simp add: DataFrame_def)
  moreover have "length (List.map_filter (speed_record w) ls) =
      length (filter (\<lambda>line. startswith line ''INFO:root:{'' \<and>
                        (\<exists>d. json_loads w (drop 10 line) = Some d \<and>
                             has_key d ''avgSpeedTowards'')) ls)"
    by (simp only: length_map_filter speed_record_Some)
  moreover have "length (filter (\<lambda>line. startswith line ''INFO:root:{'') ls) =
     length (List.map_filter (speed_record w) ls) +
     length (filter (\<lambda>line. startswith line ''INFO:root:{'' \<and>
               (\<exists>d. json_loads w (drop 10 line) = Some d \<and> \<not> has_key d ''avgSpeedTowards'')) ls)"
    using candidates_split[OF assms(2)] by (simp only: length_map_filter)
  ultimately show ?thesis
    by simp
qed

lemma example_a_log:
  "files example_world ''a.log'' =
     Some [''Video: /data/videoA/'' @ [CHR 0x0A], speed_line, count_line, debug_line]"
  by (simp add: example_world_def example_files_def)

lemma example_a_log_parses:
  "list_all (parses example_world)
     [''Video: /data/videoA/'' @ [CHR 0x0A], speed_line, count_line, debug_line]"
  by code_simp

theorem load_log_observation_count_witness:
  "\<exists>es run_id estimation cars_path.
     load_log example_world ''a.log'' = (es, Inr (run_id, estimation, cars_path)) \<and>
     rows estimation = [[(''frameId'', Num 18000), (''avgSpeedTowards'', Num 42)]]"
proof -
  have "List.map_filter (speed_record example_world)
          [''Video: /data/videoA/'' @ [CHR 0x0A], speed_line, count_line, debug_line] =
        [[(''frameId'', Num 18000), (''avgSpeedTowards'', Num 42)]]"
    by code_simp
  then show ?thesis
    using load_log_observation_count[OF example_a_log example_a_log_parses] by auto
qed

subsection \<open>The run identifier\<close>

lemma py_split_not_Nil: "py_split s c \<noteq> []"
  by (induction s) (auto split: list.splits)

lemma py_split_no_sep: "c \<notin> set s \<Longrightarrow> py_split s c = [s]"
  by (induction s) auto

lemma py_split_single: "py_split s c = [h] \<Longrightarrow> c \<notin> set s"
proof (induction s arbitrary: h)
  case Nil
  then show ?case by simp
next
  case (Cons a s)
  then show ?case
    by (cases "py_split s c") (auto simp: py_split_not_Nil split: if_splits list.splits)
qed

lemma last_py_split_append: "last (py_split (u @ c # v) c) = last (py_split v c)"
proof (induction u)
  case Nil
  then show ?case by (simp add: py_split_not_Nil)
next
  case (Cons a u)
  obtain h t where ht: "py_split (u @ c # v) c = h # t"
    using py_split_not_Nil[of "u @ c # v" c] by (cases "py_split (u @ c # v) c") auto
  have "t \<noteq> []"
    using ht py_split_single[of "u @ c # v" c h] by auto
  then show ?case using Cons ht by (auto simp: py_split_not_Nil)
qed

lemma takeWhile_no_sep: "c \<notin> set s \<Longrightarrow> takeWhile (\<lambda>a. a \<noteq> c) s = s"
  by (induction s) auto

lemma dropWhile_all_sep: "set s \<subseteq> {c} \<Longrightarrow> dropWhile (\<lambda>a. a = c) s = []"
  by (induction s) auto

lemma last_py_split: "last (py_split s c) = rev (takeWhile (\<lambda>a. a \<noteq> c) (rev s))"
proof (cases "c \<in> set s")
  case False
  then show ?thesis by (simp add: py_split_no_sep takeWhile_no_sep)
next
  case True
  then obtain u v where s: "s = u @ c # v" and v: "c \<notin> set v"
    by (meson split_list_last)
  have "takeWhile (\<lambda>a. a \<noteq> c) (rev v @ c # rev u) = rev v"
    using v by (simp add: takeWhile_append takeWhile_no_sep)
  then show ?thesis using v by (simp add: s last_py_split_append py_split_no_sep)
qed

lemma last_segment_Cons_slash: "last_segment (CHR ''/'' # u) = last_segment u"
proof (cases "CHR ''/'' \<in> set u")
  case True
  then show ?thesis by (auto simp add: last_segment_def takeWhile_append)
next
  case False
  then show ?thesis by (simp add: last_segment_def takeWhile_append takeWhile_no_sep)
qed

lemma strip_trailing_Cons_slash:
  "last_segment (strip_trailing (CHR ''/'' # s)) = last_segment (strip_trailing s)"
proof (cases "set s \<subseteq> {CHR ''/''}")
  case True
  then show ?thesis by (simp add: strip_trailing_def dropWhile_all_sep)
next
  case False
  then have "strip_trailing (CHR ''/'' # s) = CHR ''/'' # strip_trailing s"
    by (auto simp add: strip_trailing_def dropWhile_append)
  then show ?thesis by (simp add: last_segment_Cons_slash)
qed

lemma last_segment_lstrip:
  "last_segment (strip_trailing (dropWhile (\<lambda>a. a = CHR ''/'') s)) =
   last_segment (strip_trailing s)"
  by (induction s) (simp_all add: strip_trailing_Cons_slash)

lemma video_id_of_eq: "video_id_of p = last_segment (strip_trailing p)"
proof -
  have "video_id_of p = last_segment (strip_trailing (dropWhile (\<lambda>a. a = CHR ''/'') p))"
    by (simp add: video_id_of_def py_strip_def last_py_split last_segment_def strip_trailing_def)
  then show ?thesis by (simp add: last_segment_lstrip)
qed

text \<open>
  C9. Whenever a log is loaded, its video path is what the marker pattern finds in the
  first line of the file (nothing when the file is empty or the line has no marker), and
  its run identifier is the last segment of that path, trailing slashes stripped, followed
  by \<open>_depth_0\<close>; without a video path it is \<open>-1_depth_0\<close>.
\<close>

theorem run_identifier:
  assumes "load_log w log_path = (es, Inr (run_id, estimation, cars_path))"
  shows "\<exists>ls. files w log_path = Some ls \<and>
              cars_path = first_line_video ls \<and>
              run_id = (case cars_path of
                          None \<Rightarrow> ''-1''
                        | Some p \<Rightarrow> last_segment (strip_trailing p)) @ ''_depth_0''"
proof -
  obtain ls where ls: "files w log_path = Some ls" "list_all (parses w) ls"
    using load_log_Inr[OF assms] by blast
  obtain es' where "load_log w log_path =
           (es', Inr ((case first_line_video ls of None \<Rightarrow> ''-1'' | Some p \<Rightarrow> video_id_of p)
                       @ ''_depth_0'',
                     DataFrame (List.map_filter (speed_record w) ls), first_line_video ls))"
    using load_log_result[OF ls] by blast
  then have "cars_path = first_line_video ls"
    and "run_id = (case first_line_video ls of None \<Rightarrow> ''-1'' | Some p \<Rightarrow> video_id_of p)
                    @ ''_depth_0''"
    using assms by simp_all
  then show ?thesis using ls(1)
    by (auto simp: video_id_of_eq split: option.splits)
qed

lemma example_load_anon:
  "load_log example_world ''anon.log'' =
     ([OpenLog ''anon.log'', Print ''Found cars path from log: None''],
      Inr (''-1_depth_0'',
           \<lparr>columns = [''frameId'', ''avgSpeedTowards''],
            rows = [[(''frameId'', Num 18000), (''avgSpeedTowards'', Num 42)]]\<rparr>,
           None))"
  by code_simp

lemma example_load_a:
  "load_log example_world ''a.log'' =
     ([OpenLog ''a.log'', Print ''Found cars path from log: /data/videoA/''],
      Inr (''videoA_depth_0'',
           \<lparr>columns = [''frameId'', ''avgSpeedTowards''],
            rows = [[(''frameId'', Num 18000), (''avgSpeedTowards'', Num 42)]]\<rparr>,
           Some ''/data/videoA/''))"
  by code_simp

theorem run_identifier_witness:
  "(\<exists>ls. files example_world ''a.log'' = Some ls \<and>
         Some ''/data/videoA/'' = first_line_video ls \<and>
         ''videoA_depth_0'' = last_segment (strip_trailing ''/data/videoA/'') @ ''_depth_0'') \<and>
   (\<exists>ls. files example_world ''anon.log'' = Some ls \<and>
         None = first_line_video ls \<and>
         ''-1_depth_0'' = ''-1'' @ ''_depth_0'')"
  using run_identifier[OF example_load_a] run_identifier[OF example_load_anon]
  by simp

subsection \<open>The window aggregators\<close>

lemma loc_rows: "map snd (filter fst (zip (map f xs) xs)) = filter f xs"
  by (induction xs) auto

lemma gt_le_window:
  "(gt c lo \<and> le c hi) = (\<exists>f. c = Num f \<and> of_int lo < f \<and> f \<le> of_int hi)"
  by (cases c) (auto simp: gt_def le_def)

lemma gt_le_car:
  "(gt u lo \<and> le v hi) =
     (\<exists>a b. u = Num a \<and> v = Num b \<and> of_int lo < a \<and> b \<le> of_int hi)"
  by (cases u; cases v) (auto simp: gt_def le_def)

lemma cars_to_avg_filter:
  "cars_to_avg cars s e =
     filter (\<lambda>c. \<exists>a b. car_start c = Num a \<and> car_end c = Num b \<and>
                        of_int s < a \<and> b \<le> of_int e) cars"
  by (simp add: cars_to_avg_def loc_rows gt_le_car)

lemma estimation_avg_rows:
  assumes "''frameId'' \<in> set (columns est)"
  shows "estimation_avg est s e =
           Inr (est\<lparr>rows := filter (\<lambda>r. \<exists>f. cell_of ''frameId'' r = Num f \<and>
                                           of_int (s * 50) < f \<and> f \<le> of_int (e * 50))
                                (rows est)\<rparr>)"
proof -
  have "map (\<lambda>f. gt f (s * 50) \<and> le f (e * 50)) (map (cell_of ''frameId'') (rows est)) =
        map (\<lambda>r. \<exists>f. cell_of ''frameId'' r = Num f \<and> of_int (s * 50) < f \<and> f \<le> of_int (e * 50))
          (rows est)"
    by (simp add: gt_le_window)
  then show ?thesis using assms
    by (simp add: estimation_avg_def getitem_def loc_def loc_rows Let_def del: map_map)
qed

lemma avg_speed_for_time_estimation_mean:
  assumes "''frameId'' \<in> set (columns est)" and "''avgSpeedTowards'' \<in> set (columns est)"
  shows "avg_speed_for_time_estimation est s e =
           Inr (mean (map (cell_of ''avgSpeedTowards'')
                  (filter (\<lambda>r. \<exists>f. cell_of ''frameId'' r = Num f \<and>
                                   of_int (s * 50) < f \<and> f \<le> of_int (e * 50))
                     (rows est))))"
  using assms
  by (simp add: avg_speed_for_time_estimation_def estimation_avg_rows getitem_def)

lemma DataFrame_columns:
  "(k \<in> set (columns (DataFrame obs))) = (\<exists>d \<in> set obs. has_key d k)"
  by (auto simp: DataFrame_def has_key_def map_of_eq_None_iff)

text \<open>
  C1. For a series that has the frame and speed columns (a loaded series has them as soon
  as one of its observations has a frame id) and every window from \<open>s\<close> to \<open>e\<close>:
  the estimation aggregator selects exactly the observations whose frame id is strictly
  greater than \<open>50 * s\<close> and at most \<open>50 * e\<close>, and returns the mean of their speeds;
  so an observation at frame \<open>50 * s\<close> is left out and one at frame \<open>50 * e\<close> is taken
  in. The ground-truth aggregator selects the records with start strictly greater
  than \<open>s\<close> and end at most \<open>e\<close>, and returns the mean of their speeds.
\<close>

theorem window_bounds:
  assumes "''frameId'' \<in> set (columns est)" and "''avgSpeedTowards'' \<in> set (columns est)"
  shows "\<exists>sel. estimation_avg est s e = Inr sel \<and>
           rows sel = filter (\<lambda>r. \<exists>f. cell_of ''frameId'' r = Num f \<and>
                                      of_int (s * 50) < f \<and> f \<le> of_int (e * 50)) (rows est) \<and>
           avg_speed_for_time_estimation est s e =
             Inr (mean (map (cell_of ''avgSpeedTowards'') (rows sel))) \<and>
           (\<forall>r. cell_of ''frameId'' r = Num (of_int (s * 50)) \<longrightarrow> r \<notin> set (rows sel)) \<and>
           (\<forall>r \<in> set (rows est). s < e \<longrightarrow> cell_of ''frameId'' r = Num (of_int (e * 50)) \<longrightarrow>
                r \<in> set (rows sel)) \<and>
           cars_to_avg cars s e =
             filter (\<lambda>c. \<exists>a b. car_start c = Num a \<and> car_end c = Num b \<and>
                               of_int s < a \<and> b \<le> of_int e) cars \<and>
           avg_speed_for_time_ground_truth cars s e = mean (map car_speed (cars_to_avg cars s e))"
proof -
  let ?sel = "est\<lparr>rows := filter (\<lambda>r. \<exists>f. cell_of ''frameId'' r = Num f \<and>
                                           of_int (s * 50) < f \<and> f \<le> of_int (e * 50))
                                (rows est)\<rparr>"
  have 1: "estimation_avg est s e = Inr ?sel"
    using assms(1) by (rule estimation_avg_rows)
  have 2: "avg_speed_for_time_estimation est s e =
             Inr (mean (map (cell_of ''avgSpeedTowards'') (rows ?sel)))"
    using avg_speed_for_time_estimation_mean[OF assms] by simp
  have 3: "\<forall>r. cell_of ''frameId'' r = Num (of_int (s * 50)) \<longrightarrow> r \<notin> set (rows ?sel)"
    by simp
  have 4: "\<forall>r \<in> set (rows est). s < e \<longrightarrow> cell_of ''frameId'' r = Num (of_int (e * 50)) \<longrightarrow>
                r \<in> set (rows ?sel)"
    by simp
  have 5: "avg_speed_for_time_ground_truth cars s e = mean (map car_speed (cars_to_avg cars s e))"
    by (simp add: avg_speed_for_time_ground_truth_def)
  show ?thesis
    using 1 2 3 4 5 cars_to_avg_filter[of cars s e] by (intro exI[of _ ?sel]) simp
qed

theorem window_bounds_witness:
  "avg_speed_for_time_estimation
     (DataFrame [[(''frameId'', Num 15000), (''avgSpeedTowards'', Num 30)],
                 [(''frameId'', Num 18000), (''avgSpeedTowards'', Num 42)]]) 300 360 =
     Inr (Num 42) \<and>
   avg_speed_for_time_ground_truth
     [\<lparr>car_start = Num 300, car_end = Num 310, car_speed = Num 50\<rparr>,
      \<lparr>car_start = Num 350, car_end = Num 360, car_speed = Num 40\<rparr>] 300 360 = Num 40"
proof -
  let ?est = "DataFrame [[(''frameId'', Num 15000), (''avgSpeedTowards'', Num 30)],
                         [(''frameId'', Num 18000), (''avgSpeedTowards'', Num 42)]]"
  let ?cars = "[\<lparr>car_start = Num 300, car_end = Num 310, car_speed = Num 50\<rparr>,
                \<lparr>car_start = Num 350, car_end = Num 360, car_speed = Num 40\<rparr>]"
  have c1: "''frameId'' \<in> set (columns ?est)" and c2: "''avgSpeedTowards'' \<in> set (columns ?est)"
    by (simp_all add: DataFrame_def)
  have r: "rows ?est = [[(''frameId'', Num 15000), (''avgSpeedTowards'', Num 30)],
                        [(''frameId'', Num 18000), (''avgSpeedTowards'', Num 42)]]"
    by (simp add: DataFrame_def)
  from window_bounds[OF c1 c2, of 300 360 ?cars]
  show ?thesis
    unfolding r by (auto simp: cell_of_def mean_def)
qed

subsection \<open>The alignment engine\<close>

lemma py_range_schedule:
  "py_range 300 (30 * 60) 60 =
     [300, 360, 420, 480, 540, 600, 660, 720, 780, 840, 900, 960, 1020, 1080, 1140, 1200,
      1260, 1320, 1380, 1440, 1500, 1560, 1620, 1680, 1740]"
  by code_simp

lemma map_of_empty_estimations:
  "map_of (empty_estimations run_ids) k = (if k \<in> set run_ids then Some [] else None)"
proof -
  have "map_of (fold (\<lambda>k d. AList.update k [] d) ks d) k =
          (if k \<in> set ks then Some [] else map_of d k)" for ks and d :: "(string \<times> cell list) list"
    by (induction ks arbitrary: d) (auto simp: update_conv')
  then show ?thesis by (simp add: empty_estimations_def)
qed


text \<open>What the inner loop does to the series of one key: one mean more per occurrence.\<close>

lemma append_estimations_length:
  assumes "append_estimations xs loaded s e est = Inr est'" and "map_of est k = Some l"
  shows "\<exists>l'. map_of est' k = Some l' \<and> length l' = length l + count_list (map snd xs) k"
  using assms
proof (induction xs arbitrary: est l)
  case Nil
  then show ?case by simp
next
  case (Cons p xs)
  obtain idx ident where p: "p = (idx, ident)" by (cases p)
  from Cons.prems(1) p obtain series m where
    series: "map_of est ident = Some series" and
    rest: "append_estimations xs loaded s e (AList.update ident (series @ [m]) est) = Inr est'"
    by (auto split: option.splits if_splits sum.splits)
  show ?case
  proof (cases "k = ident")
    case True
    then have "map_of (AList.update ident (series @ [m]) est) k = Some (l @ [m])"
      using series Cons.prems(2) by (simp add: update_conv')
    from Cons.IH[OF rest this] show ?thesis using True p by auto
  next
    case False
    then have "map_of (AList.update ident (series @ [m]) est) k = Some l"
      using Cons.prems(2) by (simp add: update_conv')
    from Cons.IH[OF rest this] show ?thesis using False p by auto
  qed
qed

lemma append_estimations_keys:
  assumes "append_estimations xs loaded s e est = Inr est'"
  shows "map fst est' = map fst est"
  using assms
proof (induction xs arbitrary: est)
  case Nil
  then show ?case by simp
next
  case (Cons p xs)
  obtain idx ident where p: "p = (idx, ident)" by (cases p)
  from Cons.prems(1) p obtain series m where
    series: "map_of est ident = Some series" and
    rest: "append_estimations xs loaded s e (AList.update ident (series @ [m]) est) = Inr est'"
    by (auto split: option.splits if_splits sum.splits)
  have "ident \<in> set (map fst est)"
    using series by (metis map_of_eq_None_iff option.distinct(1) set_map)
  then have "map fst (AList.update ident (series @ [m]) est) = map fst est"
    by (simp add: update_keys)
  with Cons.IH[OF rest] show ?case by simp
qed

text \<open>With distinct run ids, each run's series takes the mean of that run's table.\<close>

lemma append_estimations_content:
  assumes "append_estimations xs loaded s e est = Inr est'" and "distinct (map snd xs)"
  shows "(\<forall>k. k \<notin> snd ` set xs \<longrightarrow> map_of est' k = map_of est k) \<and>
         (\<forall>p \<in> set xs. \<exists>series m. map_of est (snd p) = Some series \<and>
              avg_speed_for_time_estimation (loaded ! fst p) s e = Inr m \<and>
              map_of est' (snd p) = Some (series @ [m]))"
  using assms
proof (induction xs arbitrary: est)
  case Nil
  then show ?case by simp
next
  case (Cons p xs)
  obtain idx ident where p: "p = (idx, ident)" by (cases p)
  from Cons.prems(1) p obtain series m where
    series: "map_of est ident = Some series" and
    m: "avg_speed_for_time_estimation (loaded ! idx) s e = Inr m" and
    rest: "append_estimations xs loaded s e (AList.update ident (series @ [m]) est) = Inr est'"
    by (auto split: option.splits if_splits sum.splits)
  from Cons.prems(2) p have d: "distinct (map snd xs)" and notin: "ident \<notin> snd ` set xs"
    by auto
  note ih = Cons.IH[OF rest d]
  have a: "\<forall>k. k \<notin> snd ` set (p # xs) \<longrightarrow> map_of est' k = map_of est k"
    using ih p by (auto simp: update_conv')
  have b: "\<exists>series m. map_of est (snd p) = Some series \<and>
              avg_speed_for_time_estimation (loaded ! fst p) s e = Inr m \<and>
              map_of est' (snd p) = Some (series @ [m])"
    using ih notin p series m by (auto simp: update_conv')
  have c: "\<forall>q \<in> set xs. \<exists>series m. map_of est (snd q) = Some series \<and>
              avg_speed_for_time_estimation (loaded ! fst q) s e = Inr m \<and>
              map_of est' (snd q) = Some (series @ [m])"
  proof
    fix q assume q: "q \<in> set xs"
    then have "snd q \<noteq> ident" using notin by auto
    then show "\<exists>series m. map_of est (snd q) = Some series \<and>
              avg_speed_for_time_estimation (loaded ! fst q) s e = Inr m \<and>
              map_of est' (snd q) = Some (series @ [m])"
      using ih q by (auto simp: update_conv')
  qed
  show ?case using a b c by simp
qed


lemma window_loop_shape:
  assumes "window_loop starts run_ids loaded ground_truth (truth, est, ts) = Inr (truth', est', ts')"
  shows "truth' = truth @ map (\<lambda>s. avg_speed_for_time_ground_truth ground_truth s (s + 60)) starts \<and>
         ts' = ts @ map (\<lambda>s. s + 60) starts \<and>
         map fst est' = map fst est"
  using assms
proof (induction starts arbitrary: truth est ts)
  case Nil
  then show ?case by simp
next
  case (Cons start starts)
  from Cons.prems obtain est1 where
    est1: "append_estimations (zip [0..<length run_ids] run_ids) loaded start (start + 60) est
             = Inr est1" and
    rest: "window_loop starts run_ids loaded ground_truth
             (truth @ [avg_speed_for_time_ground_truth ground_truth start (start + 60)], est1,
              ts @ [start + 60]) = Inr (truth', est', ts')"
    by (auto simp: Let_def split: sum.splits)
  from Cons.IH[OF rest] append_estimations_keys[OF est1] show ?case by simp
qed


lemma window_loop_length:
  assumes "window_loop starts run_ids loaded ground_truth (truth, est, ts) = Inr (truth', est', ts')"
    and "map_of est k = Some l"
  shows "\<exists>l'. map_of est' k = Some l' \<and>
              length l' = length l + length starts * count_list run_ids k"
  using assms
proof (induction starts arbitrary: truth est ts l)
  case Nil
  then show ?case by simp
next
  case (Cons start starts)
  from Cons.prems(1) obtain est1 where
    est1: "append_estimations (zip [0..<length run_ids] run_ids) loaded start (start + 60) est
             = Inr est1" and
    rest: "window_loop starts run_ids loaded ground_truth
             (truth @ [avg_speed_for_time_ground_truth ground_truth start (start + 60)], est1,
              ts @ [start + 60]) = Inr (truth', est', ts')"
    by (auto simp: Let_def split: sum.splits)
  obtain l1 where l1: "map_of est1 k = Some l1"
    "length l1 = length l + count_list run_ids k"
    using append_estimations_length[OF est1 Cons.prems(2)] by auto
  from Cons.IH[OF rest l1(1)] l1(2) show ?case by auto
qed

lemma window_loop_content:
  assumes "window_loop starts run_ids loaded ground_truth (truth, est, ts) = Inr (truth', est', ts')"
    and "distinct run_ids" and "i < length run_ids" and "map_of est (run_ids ! i) = Some l"
  shows "\<exists>ms. map_of est' (run_ids ! i) = Some (l @ ms) \<and>
              map Inr ms = map (\<lambda>s. avg_speed_for_time_estimation (loaded ! i) s (s + 60)) starts"
  using assms(1,4)
proof (induction starts arbitrary: truth est ts l)
  case Nil
  then show ?case by simp
next
  case (Cons start starts)
  from Cons.prems(1) obtain est1 where
    est1: "append_estimations (zip [0..<length run_ids] run_ids) loaded start (start + 60) est
             = Inr est1" and
    rest: "window_loop starts run_ids loaded ground_truth
             (truth @ [avg_speed_for_time_ground_truth ground_truth start (start + 60)], est1,
              ts @ [start + 60]) = Inr (truth', est', ts')"
    by (auto simp: Let_def split: sum.splits)
  have d: "distinct (map snd (zip [0..<length run_ids] run_ids))"
    using assms(2) by simp
  have mem: "(i, run_ids ! i) \<in> set (zip [0..<length run_ids] run_ids)"
    using assms(3) by (auto simp: set_zip intro!: exI[of _ i])
  from append_estimations_content[OF est1 d] mem
  obtain series m where
    "map_of est (run_ids ! i) = Some series"
    "avg_speed_for_time_estimation (loaded ! i) start (start + 60) = Inr m"
    "map_of est1 (run_ids ! i) = Some (series @ [m])"
    by fastforce
  then have m: "avg_speed_for_time_estimation (loaded ! i) start (start + 60) = Inr m"
    and e1: "map_of est1 (run_ids ! i) = Some (l @ [m])"
    using Cons.prems(2) by simp_all
  from Cons.IH[OF rest e1] obtain ms where
    "map_of est' (run_ids ! i) = Some ((l @ [m]) @ ms)"
    "map Inr ms = map (\<lambda>s. avg_speed_for_time_estimation (loaded ! i) s (s + 60)) starts"
    by blast
  then have "map_of est' (run_ids ! i) = Some (l @ (m # ms)) \<and>
     map Inr (m # ms) =
       map (\<lambda>s. avg_speed_for_time_estimation (loaded ! i) s (s + 60)) (start # starts)"
    using m by simp
  then show ?case by blast
qed

lemma generate_aligned_estimations_Inr:
  assumes "generate_aligned_estimations run_ids loaded cars = Inr (truth, est, ts)"
  shows "ts = [360, 420, 480, 540, 600, 660, 720, 780, 840, 900, 960, 1020, 1080, 1140, 1200,
               1260, 1320, 1380, 1440, 1500, 1560, 1620, 1680, 1740, 1800]"
    and "truth = map (\<lambda>s. avg_speed_for_time_ground_truth cars s (s + 60))
                   [300, 360, 420, 480, 540, 600, 660, 720, 780, 840, 900, 960, 1020, 1080,
                    1140, 1200, 1260, 1320, 1380, 1440, 1500, 1560, 1620, 1680, 1740]"
    and "k \<in> set run_ids \<Longrightarrow>
           \<exists>l. map_of est k = Some l \<and> length l = 25 * count_list run_ids k"
    and "k \<notin> set run_ids \<Longrightarrow> map_of est k = None"
    and "distinct run_ids \<Longrightarrow> i < length run_ids \<Longrightarrow>
           \<exists>ms. map_of est (run_ids ! i) = Some ms \<and>
             map Inr ms = map (\<lambda>s. avg_speed_for_time_estimation (loaded ! i) s (s + 60))
                   [300, 360, 420, 480, 540, 600, 660, 720, 780, 840, 900, 960, 1020, 1080,
                    1140, 1200, 1260, 1320, 1380, 1440, 1500, 1560, 1620, 1680, 1740]"
proof -
  let ?starts = "[300, 360, 420, 480, 540, 600, 660, 720, 780, 840, 900, 960, 1020, 1080,
                    1140, 1200, 1260, 1320, 1380, 1440, 1500, 1560, 1620, 1680, 1740] :: int list"
  have w: "window_loop ?starts run_ids loaded cars ([], empty_estimations run_ids, [])
             = Inr (truth, est, ts)"
    using assms by (simp only: generate_aligned_estimations_def py_range_schedule)
  note shape = window_loop_shape[OF w]
  show "ts = [360, 420, 480, 540, 600, 660, 720, 780, 840, 900, 960, 1020, 1080, 1140, 1200,
               1260, 1320, 1380, 1440, 1500, 1560, 1620, 1680, 1740, 1800]"
    using shape by simp
  show "truth = map (\<lambda>s. avg_speed_for_time_ground_truth cars s (s + 60)) ?starts"
    using shape by simp
  show "\<exists>l. map_of est k = Some l \<and> length l = 25 * count_list run_ids k"
    if "k \<in> set run_ids"
  proof -
    have "map_of (empty_estimations run_ids) k = Some []"
      using that by (simp add: map_of_empty_estimations)
    from window_loop_length[OF w this] obtain l' where
      l': "map_of est k = Some l'"
        "length l' = length ([] :: cell list) + length ?starts * count_list run_ids k"
      by blast
    have len: "length ?starts = 25"
      by simp
    have "length l' = 25 * count_list run_ids k"
      unfolding l'(2) len by simp
    then show ?thesis using l'(1) by blast
  qed
  show "map_of est k = None" if "k \<notin> set run_ids"
  proof -
    have "map_of (empty_estimations run_ids) k = None"
      using that by (simp add: map_of_empty_estimations)
    then have "k \<notin> set (map fst (empty_estimations run_ids))"
      by (simp add: map_of_eq_None_iff)
    then have "k \<notin> set (map fst est)"
      using shape by simp
    then show ?thesis by (simp add: map_of_eq_None_iff)
  qed
  show "\<exists>ms. map_of est (run_ids ! i) = Some ms \<and>
             map Inr ms = map (\<lambda>s. avg_speed_for_time_estimation (loaded ! i) s (s + 60)) ?starts"
    if "distinct run_ids" and "i < length run_ids"
  proof -
    have "map_of (empty_estimations run_ids) (run_ids ! i) = Some []"
      using that(2) by (simp add: map_of_empty_estimations)
    from window_loop_content[OF w that this] show ?thesis by simp
  qed
qed

lemma distinct_empty_estimations: "distinct (map fst (empty_estimations run_ids))"
proof -
  have "distinct (map fst d) \<Longrightarrow> distinct (map fst (fold (\<lambda>k d. AList.update k [] d) ks d))"
    for ks and d :: "(string \<times> cell list) list"
    by (induction ks arbitrary: d) (simp_all add: distinct_update)
  then show ?thesis by (simp add: empty_estimations_def)
qed

lemma generate_aligned_estimations_distinct:
  assumes "generate_aligned_estimations run_ids loaded cars = Inr (truth, est, ts)"
  shows "distinct (map fst est)"
proof -
  have "window_loop (py_range 300 (30 * 60) 60) run_ids loaded cars
          ([], empty_estimations run_ids, []) = Inr (truth, est, ts)"
    using assms by (simp only: generate_aligned_estimations_def)
  from window_loop_shape[OF this] have "map fst est = map fst (empty_estimations run_ids)"
    by simp
  then show ?thesis by (simp add: distinct_empty_estimations)
qed





subsection \<open>The final table\<close>

lemma DataFrame_of_dict_Inr:
  assumes "DataFrame_of_dict d = Inr df"
  shows "df = d" and "kc \<in> set d \<Longrightarrow> length (snd kc) = nrows d"
proof -
  show "df = d"
    using assms by (auto simp: DataFrame_of_dict_def split: list.splits if_splits)
  show "length (snd kc) = nrows d" if "kc \<in> set d"
    using assms that
    by (auto simp: DataFrame_of_dict_def nrows_def list_all_iff split: list.splits if_splits)
qed

lemma loc_nth:
  "map snd (filter fst (zip (map P [0..<length c]) c)) =
     map (\<lambda>i. c ! i) (filter P [0..<length c])"
proof -
  have "zip (map P [0..<length c]) c =
          zip (map P [0..<length c]) (map (\<lambda>i. c ! i) [0..<length c])"
    by (simp add: map_nth)
  also have "\<dots> = map (\<lambda>i. (P i, c ! i)) [0..<length c]"
    by (simp add: zip_map_map zip_same_conv_map)
  finally show ?thesis
    by (simp add: filter_map comp_def)
qed

lemma dropna_eq:
  assumes "\<forall>kc \<in> set df. length (snd kc) = nrows df"
  shows "dropna df = map (\<lambda>kc. (fst kc, map (\<lambda>i. snd kc ! i) (retained df))) df"
proof -
  have "map snd (filter fst (zip (notna_rows df) (snd kc))) = map (\<lambda>i. snd kc ! i) (retained df)"
    if "kc \<in> set df" for kc
  proof -
    have "length (snd kc) = nrows df"
      using assms that by simp
    then show ?thesis
      using loc_nth[of "\<lambda>i. list_all (\<lambda>kc. snd kc ! i \<noteq> NaN) df" "snd kc"]
      by (simp add: notna_rows_def retained_def)
  qed
  then show ?thesis
    by (simp add: dropna_def)
qed

lemma dropna_keys: "map fst (dropna df) = map fst df"
  by (simp add: dropna_def comp_def)





lemma nrows_dropna:
  assumes "\<forall>kc \<in> set df. length (snd kc) = nrows df" and "df \<noteq> []"
  shows "nrows (dropna df) = length (retained df)"
  using assms by (cases df) (auto simp: dropna_eq nrows_def)

lemma fold_update_map_of:
  "map_of (fold (\<lambda>kv d. AList.update (fst kv) (snd kv) d) xs d) k =
     (case map_of (rev xs) k of None \<Rightarrow> map_of d k | Some v \<Rightarrow> Some v)"
  by (induction xs arbitrary: d) (auto simp: update_conv' map_add_def split: option.splits)

lemma map_of_rev_distinct: "distinct (map fst xs) \<Longrightarrow> map_of (rev xs) = map_of xs"
  by (subst map_of_inject_set) (simp_all add: rev_map[symmetric])

lemma map_of_table_dict:
  assumes "distinct (map fst est)"
  shows "map_of (table_dict truth est ts) k =
           (if k = ''timestamps'' then Some (map (\<lambda>t. Num (of_int t)) ts)
            else (case map_of est k of
                    Some v \<Rightarrow> Some v
                  | None \<Rightarrow> if k = ''truth'' then Some truth else None))"
  by (auto simp add: table_dict_def update_conv' fold_update_map_of map_of_rev_distinct[OF assms]
        split: option.splits)

lemma getitems_Inr:
  "getitems df ks = Inr runs \<Longrightarrow>
     runs = map (\<lambda>k. (k, column df k)) ks \<and> (\<forall>k \<in> set ks. map_of df k \<noteq> None)"
  by (induction ks arbitrary: runs) (auto simp: column_def split: option.splits sum.splits)

lemma getitems_total:
  "\<forall>k \<in> set ks. map_of df k \<noteq> None \<Longrightarrow> getitems df ks = Inr (map (\<lambda>k. (k, column df k)) ks)"
  by (induction ks) (auto simp: column_def)



lemma sub_truth_total:
  assumes "map_of df ''truth'' = Some truth" and "\<forall>k \<in> set ks. map_of df k \<noteq> None"
  shows "\<exists>df'. sub_truth df ks = Inr df'"
  using assms by (simp add: sub_truth_def getitems_total)

lemma column_means_Inr:
  "column_means df ks = Inr means \<Longrightarrow> means = map (\<lambda>k. (k, mean (column df k))) ks"
  by (auto simp: column_means_def dest!: getitems_Inr split: sum.splits)



subsection \<open>The evaluation call\<close>

lemma load_lines_effects:
  "load_lines w idx ls cp acc = (es, r) \<Longrightarrow> list_all loading_effect es"
proof (induction ls arbitrary: idx cp acc es r)
  case Nil
  then show ?case by simp
next
  case (Cons l ls)
  then show ?case
    by (auto simp: Let_def loading_effect_def split: if_splits option.splits prod.splits)
qed

lemma load_log_effects: "load_log w p = (es, r) \<Longrightarrow> list_all loading_effect es"
  by (auto simp: load_log_def loading_effect_def split: option.splits prod.splits sum.splits
           dest: load_lines_effects)

lemma load_logs_effects: "load_logs w logs = (es, r) \<Longrightarrow> list_all loading_effect es"
proof (induction logs arbitrary: es r)
  case Nil
  then show ?case by simp
next
  case (Cons p logs)
  then show ?case
    by (auto split: prod.splits sum.splits dest: load_log_effects)
qed

lemma load_logs_Inr:
  "load_logs w logs = (es, Inr results) \<Longrightarrow>
     list_all2 (\<lambda>p r. \<exists>e. load_log w p = (e, Inr r)) logs results"
proof (induction logs arbitrary: es results)
  case Nil
  then show ?case by simp
next
  case (Cons p logs)
  then show ?case
    by (auto split: prod.splits sum.splits)
qed

lemma load_logs_total:
  "\<forall>p \<in> set logs. \<exists>e r. load_log w p = (e, Inr r) \<Longrightarrow>
     \<exists>es results. load_logs w logs = (es, Inr results)"
proof (induction logs)
  case Nil
  then show ?case by simp
next
  case (Cons p logs)
  then obtain e r es results where
    "load_log w p = (e, Inr r)" "load_logs w logs = (es, Inr results)"
    by fastforce
  then show ?case by simp
qed

lemma same_video_Inr: "(same_video cp cps = Inr u) = (\<forall>c \<in> set cps. c = cp)"
  by (induction cps) auto

lemma same_video_Inl:
  "\<exists>c \<in> set cps. c \<noteq> cp \<Longrightarrow>
     same_video cp cps = Inl (Exception ''Can only evaluate logs of the same video in one call!'')"
  by (induction cps) auto

lemma load_log_run_id:
  assumes "load_log w p = (e, Inr r)"
  shows "fst r = (case snd (snd r) of None \<Rightarrow> ''-1'' | Some v \<Rightarrow> video_id_of v) @ ''_depth_0''"
proof -
  obtain ls where ls: "files w p = Some ls" "list_all (parses w) ls"
    using load_log_Inr[OF assms] by blast
  from load_log_result[OF ls] assms show ?thesis
    by auto
qed

lemma plot_absolute_error_Inr:
  assumes "plot_absolute_error w logs save = (es, Inr u)"
  shows "\<exists>es1 results p cars truth est ts es2.
           load_logs w logs = (es1, Inr results) \<and> results \<noteq> [] \<and>
           (\<forall>r \<in> set results. snd (snd r) = Some p) \<and>
           csv_files w (p @ ''cars.csv'') = Some cars \<and>
           generate_aligned_estimations (map fst results) (map (\<lambda>r. fst (snd r)) results) cars
             = Inr (truth, est, ts) \<and>
           report w (map fst results) p truth est ts save = (es2, Inr u) \<and>
           es = es1 @ [ReadCsv (p @ ''cars.csv'')] @ es2"
proof -
  obtain es1 lr where l: "load_logs w logs = (es1, lr)"
    by (cases "load_logs w logs") auto
  from assms l obtain results where lr: "lr = Inr results"
    by (cases lr) (auto simp: plot_absolute_error_def)
  from assms l lr obtain r rs where rs: "results = r # rs"
    by (cases results) (auto simp: plot_absolute_error_def)
  from assms l lr rs have sv: "same_video (snd (snd r)) (map (\<lambda>r. snd (snd r)) results) = Inr ()"
    by (auto simp: plot_absolute_error_def Let_def split: sum.splits)
  from assms l lr rs sv obtain p where p: "snd (snd r) = Some p"
    by (cases "snd (snd r)") (auto simp: plot_absolute_error_def Let_def)
  from sv p have all: "\<forall>r \<in> set results. snd (snd r) = Some p"
    by (auto simp: same_video_Inr)
  from assms l lr rs sv p obtain cars where cars: "csv_files w (p @ ''cars.csv'') = Some cars"
    by (cases "csv_files w (p @ ''cars.csv'')") (auto simp: plot_absolute_error_def Let_def)
  from assms l lr rs sv p cars obtain truth est ts where
    g: "generate_aligned_estimations (map fst results) (map (\<lambda>r. fst (snd r)) results) cars
          = Inr (truth, est, ts)"
    by (cases "generate_aligned_estimations (map fst results)
                 (map (\<lambda>r. fst (snd r)) results) cars")
       (auto simp: plot_absolute_error_def Let_def)
  obtain es2 res where rep: "report w (map fst results) p truth est ts save = (es2, res)"
    by (cases "report w (map fst results) p truth est ts save") auto
  from assms l lr rs sv p cars g rep have "res = Inr u" and "es = es1 @ [ReadCsv (p @ ''cars.csv'')] @ es2"
    by (auto simp: plot_absolute_error_def Let_def)
  then show ?thesis
    using l lr rs all cars g rep by blast
qed

text \<open>
  A report that is completed was asked for with a string as destination; it wrote the error
  chart and the summary with \<open>os.path.join\<close> of that string, and showed the first chart
  only when the string was empty.
\<close>

lemma report_Inr:
  assumes "report w run_ids cp truth est ts save = (es, Inr u)"
  shows "\<exists>dir df'.
           save = Some dir \<and>
           DataFrame_of_dict (table_dict truth est ts) = Inr (table_dict truth est ts) \<and>
           sub_truth (dropna (table_dict truth est ts)) run_ids = Inr df' \<and>
           es = [(if dir = []
                  then ShowFig
                         \<lparr>title = ''Absolute Estimations ('' @ cp @ '')'',
                          data_frame = dropna (table_dict truth est ts),
                          x_axis = ''timestamps'',
                          y_axis = map fst (dropna (table_dict truth est ts))\<rparr>
                  else WriteImage
                         (path_join dir (video_id_of cp @ ''_'' @ take 10 (uuid4_hex w) @
                                         ''_estimations.pdf''))
                         \<lparr>title = ''Absolute Estimations ('' @ cp @ '')'',
                          data_frame = dropna (table_dict truth est ts),
                          x_axis = ''timestamps'',
                          y_axis = map fst (dropna (table_dict truth est ts))\<rparr>),
                 WriteImage
                   (path_join dir (video_id_of cp @ ''_'' @ take 10 (uuid4_hex w) @ ''_mae.pdf''))
                   \<lparr>title = ''Mean Absolute Error ('' @ cp @ '')'', data_frame = df',
                    x_axis = ''timestamps'', y_axis = tl (map fst df')\<rparr>,
                 ToCsv
                   (path_join dir (video_id_of cp @ ''_'' @ take 10 (uuid4_hex w) @ ''_error.csv''))
                   (map (\<lambda>k. (k, mean (column df' k))) run_ids)]"
proof -
  obtain df0 where df0: "DataFrame_of_dict (table_dict truth est ts) = Inr df0"
    using assms by (cases "DataFrame_of_dict (table_dict truth est ts)") (auto simp: report_def)
  then have eq: "df0 = table_dict truth est ts"
    by (rule DataFrame_of_dict_Inr(1))
  obtain dir where dir: "save = Some dir"
    using assms df0 by (cases save) (auto simp: report_def Let_def)
  obtain df' where df': "sub_truth (dropna df0) run_ids = Inr df'"
    using assms df0 dir
    by (cases "sub_truth (dropna df0) run_ids") (auto simp: report_def Let_def split: if_splits)
  obtain means where means: "column_means df' run_ids = Inr means"
    using assms df0 dir df'
    by (cases "column_means df' run_ids") (auto simp: report_def Let_def split: if_splits)
  note m = column_means_Inr[OF means]
  show ?thesis
    using assms df0 dir df' means
    unfolding m eq
    by (auto simp: report_def Let_def split: if_splits)
qed

lemma run_id_not_reserved:
  "v @ ''_depth_0'' \<noteq> ''truth''" "v @ ''_depth_0'' \<noteq> ''timestamps''"
proof -
  show "v @ ''_depth_0'' \<noteq> ''truth''"
  proof
    assume "v @ ''_depth_0'' = ''truth''"
    then have "last (v @ ''_depth_0'') = last ''truth''"
      by (rule arg_cong)
    then show False by simp
  qed
  show "v @ ''_depth_0'' \<noteq> ''timestamps''"
  proof
    assume "v @ ''_depth_0'' = ''timestamps''"
    then have "last (v @ ''_depth_0'') = last ''timestamps''"
      by (rule arg_cong)
    then show False by simp
  qed
qed

lemma list_all2_right:
  "list_all2 P xs ys \<Longrightarrow> b \<in> set ys \<Longrightarrow> \<exists>a \<in> set xs. P a b"
  by (induction rule: list_all2_induct) auto

lemma count_list_replicate_same: "count_list (replicate n a) a = n"
  by (induction n) simp_all

lemma results_run_ids:
  assumes "load_logs w logs = (es, Inr results)" and "\<forall>r \<in> set results. snd (snd r) = Some p"
  shows "map fst results = replicate (length logs) (video_id_of p @ ''_depth_0'')"
proof -
  have l2: "list_all2 (\<lambda>p r. \<exists>e. load_log w p = (e, Inr r)) logs results"
    using load_logs_Inr[OF assms(1)] .
  then have len: "length results = length logs"
    by (simp add: list_all2_lengthD)
  have "fst r = video_id_of p @ ''_depth_0''" if "r \<in> set results" for r
  proof -
    from list_all2_right[OF l2 that] obtain q e where "load_log w q = (e, Inr r)"
      by blast
    from load_log_run_id[OF this] assms(2) that show ?thesis by simp
  qed
  then have "map fst results = replicate (length results) (video_id_of p @ ''_depth_0'')"
    by (intro replicate_eqI) auto
  then show ?thesis using len by simp
qed

text \<open>A completed evaluation was of exactly one log.\<close>

lemma plot_absolute_error_single_log:
  assumes "plot_absolute_error w logs save = (es, Inr u)"
  shows "length logs = 1"
proof -
  from plot_absolute_error_Inr[OF assms] obtain es1 results p cars truth est ts es2 where
    l: "load_logs w logs = (es1, Inr results)" and ne: "results \<noteq> []" and
    same: "\<forall>r \<in> set results. snd (snd r) = Some p" and
    g: "generate_aligned_estimations (map fst results) (map (\<lambda>r. fst (snd r)) results) cars
          = Inr (truth, est, ts)" and
    rep: "report w (map fst results) p truth est ts save = (es2, Inr u)"
    by blast
  let ?rid = "video_id_of p @ ''_depth_0''"
  let ?n = "length logs"
  have ids: "map fst results = replicate ?n ?rid"
    using results_run_ids[OF l same] .
  have "length (map fst results) = ?n"
    by (simp only: ids length_replicate)
  then have n0: "?n \<noteq> 0"
    using ne by auto
  then have mem: "?rid \<in> set (map fst results)"
    by (simp add: ids)
  have cnt: "count_list (map fst results) ?rid = ?n"
    unfolding ids by (rule count_list_replicate_same)
  from generate_aligned_estimations_Inr(3)[OF g mem] cnt obtain l where
    series: "map_of est ?rid = Some l" and ll: "length l = 25 * ?n"
    by auto
  have "''truth'' \<notin> set (map fst results)"
    unfolding ids using run_id_not_reserved(1)[of "video_id_of p"] by auto
  then have nt: "map_of est ''truth'' = None"
    using generate_aligned_estimations_Inr(4)[OF g] by blast
  have lt: "length truth = 25"
    using generate_aligned_estimations_Inr(2)[OF g] by simp
  note d = generate_aligned_estimations_distinct[OF g]
  from report_Inr[OF rep] have
    df: "DataFrame_of_dict (table_dict truth est ts) = Inr (table_dict truth est ts)"
    by blast
  have "map_of (table_dict truth est ts) ?rid = Some l"
    using series run_id_not_reserved(2)[of "video_id_of p"] by (simp add: map_of_table_dict[OF d])
  then have 1: "length l = nrows (table_dict truth est ts)"
    using DataFrame_of_dict_Inr(2)[OF df, of "(?rid, l)"] by (auto dest: map_of_SomeD)
  have "map_of (table_dict truth est ts) ''truth'' = Some truth"
    using nt by (simp add: map_of_table_dict[OF d])
  then have 2: "length truth = nrows (table_dict truth est ts)"
    using DataFrame_of_dict_Inr(2)[OF df, of "(''truth'', truth)"] by (auto dest: map_of_SomeD)
  from 1 2 ll lt show ?thesis by simp
qed

text \<open>
  C5. When all logs are loaded and two of them carry different video paths, the call ends
  with the exception of the same-video check, which is no parse error; its trace is that
  of the loading alone: the ground truth is not read, nothing is aggregated, and no chart
  or summary is shown or written.
\<close>

theorem different_videos_fail:
  assumes "load_logs w logs = (es, Inr results)"
    and "r1 \<in> set results" and "r2 \<in> set results" and "snd (snd r1) \<noteq> snd (snd r2)"
  shows "plot_absolute_error w logs save =
           (es, Inl (Exception ''Can only evaluate logs of the same video in one call!'')) \<and>
         Exception ''Can only evaluate logs of the same video in one call!'' \<noteq> JSONDecodeError \<and>
         list_all loading_effect es"
proof -
  obtain r rs where rs: "results = r # rs"
    using assms(2) by (cases results) auto
  have "\<exists>c \<in> set (map (\<lambda>r. snd (snd r)) results). c \<noteq> snd (snd r)"
  proof (cases "snd (snd r1) = snd (snd r)")
    case True
    then have "snd (snd r2) \<noteq> snd (snd r)"
      using assms(4) by simp
    then show ?thesis using assms(3) by (intro bexI[of _ "snd (snd r2)"]) auto
  next
    case False
    then show ?thesis using assms(2) by auto
  qed
  then have "same_video (snd (snd r)) (map (\<lambda>r. snd (snd r)) results) =
               Inl (Exception ''Can only evaluate logs of the same video in one call!'')"
    by (rule same_video_Inl)
  then have "plot_absolute_error w logs save =
           (es, Inl (Exception ''Can only evaluate logs of the same video in one call!''))"
    using assms(1) rs by (simp add: plot_absolute_error_def Let_def)
  then show ?thesis
    using load_logs_effects[OF assms(1)] by simp
qed

lemma example_load_two_videos:
  "load_logs example_world [''a.log'', ''other.log''] =
     ([OpenLog ''a.log'', Print ''Found cars path from log: /data/videoA/'',
       OpenLog ''other.log'', Print ''Found cars path from log: /data/videoB/''],
      Inr [(''videoA_depth_0'',
            \<lparr>columns = [''frameId'', ''avgSpeedTowards''],
             rows = [[(''frameId'', Num 18000), (''avgSpeedTowards'', Num 42)]]\<rparr>,
            Some ''/data/videoA/''),
           (''videoB_depth_0'',
            \<lparr>columns = [''frameId'', ''avgSpeedTowards''],
             rows = [[(''frameId'', Num 18000), (''avgSpeedTowards'', Num 42)]]\<rparr>,
            Some ''/data/videoB/'')])"
  by code_simp

theorem different_videos_fail_witness:
  "plot_absolute_error example_world [''a.log'', ''other.log''] (Some ''out/'') =
     ([OpenLog ''a.log'', Print ''Found cars path from log: /data/videoA/'',
       OpenLog ''other.log'', Print ''Found cars path from log: /data/videoB/''],
      Inl (Exception ''Can only evaluate logs of the same video in one call!''))"
  using different_videos_fail[OF example_load_two_videos,
      of "(''videoA_depth_0'',
            \<lparr>columns = [''frameId'', ''avgSpeedTowards''],
             rows = [[(''frameId'', Num 18000), (''avgSpeedTowards'', Num 42)]]\<rparr>,
            Some ''/data/videoA/'')"
         "(''videoB_depth_0'',
            \<lparr>columns = [''frameId'', ''avgSpeedTowards''],
             rows = [[(''frameId'', Num 18000), (''avgSpeedTowards'', Num 42)]]\<rparr>,
            Some ''/data/videoB/'')" "Some ''out/''"]
  by simp

text \<open>
  C10. When no log has the video marker in its first line (and the logs are there and well
  formed), every log is loaded, with no video path and the run id \<open>-1_depth_0\<close>; the
  same-video check passes; and the call ends with the TypeError of adding the file name to
  \<open>None\<close>. Its trace is that of the loading alone: the ground truth is not read, and no
  chart or summary is shown or written.
\<close>

theorem no_video_path_fails:
  assumes "logs \<noteq> []"
    and "\<forall>p \<in> set logs. \<exists>ls. files w p = Some ls \<and> list_all (parses w) ls \<and>
                               first_line_video ls = None"
  shows "\<exists>es results.
           load_logs w logs = (es, Inr results) \<and>
           length results = length logs \<and>
           (\<forall>r \<in> set results. fst r = ''-1_depth_0'' \<and> snd (snd r) = None) \<and>
           same_video None (map (\<lambda>r. snd (snd r)) results) = Inr () \<and>
           plot_absolute_error w logs save = (es, Inl TypeError) \<and>
           list_all loading_effect es"
proof -
  have each: "\<exists>e r. load_log w p = (e, Inr r) \<and> fst r = ''-1_depth_0'' \<and> snd (snd r) = None"
    if "p \<in> set logs" for p
  proof -
    from assms(2) that obtain ls where
      ls: "files w p = Some ls" "list_all (parses w) ls" and none: "first_line_video ls = None"
      by blast
    from load_log_result[OF ls] obtain e where
      "load_log w p =
         (e, Inr ((case first_line_video ls of None \<Rightarrow> ''-1'' | Some p \<Rightarrow> video_id_of p)
                     @ ''_depth_0'',
                  DataFrame (List.map_filter (speed_record w) ls), first_line_video ls))"
      by blast
    then have "load_log w p =
         (e, Inr (''-1_depth_0'', DataFrame (List.map_filter (speed_record w) ls), None))"
      by (simp add: none)
    then show ?thesis by simp
  qed
  then have "\<forall>p \<in> set logs. \<exists>e r. load_log w p = (e, Inr r)"
    by blast
  from load_logs_total[OF this] obtain es results where
    l: "load_logs w logs = (es, Inr results)"
    by blast
  have l2: "list_all2 (\<lambda>p r. \<exists>e. load_log w p = (e, Inr r)) logs results"
    using load_logs_Inr[OF l] .
  then have len: "length results = length logs"
    by (simp add: list_all2_lengthD)
  have res: "fst r = ''-1_depth_0'' \<and> snd (snd r) = None" if "r \<in> set results" for r
  proof -
    from list_all2_right[OF l2 that] obtain q e where
      q: "q \<in> set logs" "load_log w q = (e, Inr r)"
      by blast
    from each[OF q(1)] q(2) show ?thesis by auto
  qed
  obtain r rs where rs: "results = r # rs"
    using assms(1) len by (cases results) auto
  have sv: "same_video None (map (\<lambda>r. snd (snd r)) results) = Inr ()"
    using res by (auto simp: same_video_Inr)
  have "snd (snd r) = None"
    using res rs by simp
  then have "plot_absolute_error w logs save = (es, Inl TypeError)"
    using l rs sv by (simp add: plot_absolute_error_def Let_def)
  then show ?thesis
    using l len res sv load_logs_effects[OF l] by blast
qed

theorem no_video_path_fails_witness:
  "plot_absolute_error example_world [''anon.log''] (Some ''out/'') =
     ([OpenLog ''anon.log'', Print ''Found cars path from log: None''], Inl TypeError)"
proof -
  have "\<forall>p \<in> set [''anon.log'']. \<exists>ls. files example_world p = Some ls \<and>
          list_all (parses example_world) ls \<and> first_line_video ls = None"
  proof -
    have "files example_world ''anon.log'' = Some [debug_line, speed_line]"
      by (simp add: example_world_def example_files_def)
    moreover have "list_all (parses example_world) [debug_line, speed_line]"
      by code_simp
    moreover have "first_line_video [debug_line, speed_line] = None"
      by code_simp
    ultimately show ?thesis by simp
  qed
  from no_video_path_fails[OF _ this, of "Some ''out/''"]
  obtain es results where
    "load_logs example_world [''anon.log''] = (es, Inr results)"
    "plot_absolute_error example_world [''anon.log''] (Some ''out/'') = (es, Inl TypeError)"
    by auto
  moreover have "fst (load_logs example_world [''anon.log'']) =
      [OpenLog ''anon.log'', Print ''Found cars path from log: None'']"
    by code_simp
  ultimately show ?thesis by simp
qed

subsection \<open>The error view\<close>




subsection \<open>Where the code departs from the specification\<close>

text \<open>
  A completed evaluation was asked for with a string as destination, and wrote the error
  chart and the summary: no call shows both charts and writes nothing.
\<close>

lemma completed_call_writes:
  assumes "plot_absolute_error w logs save = (es, Inr u)"
  shows "\<exists>dir p fig means.
           save = Some dir \<and>
           WriteImage
             (path_join dir (video_id_of p @ ''_'' @ take 10 (uuid4_hex w) @ ''_mae.pdf''))
             fig \<in> set es \<and>
           ToCsv
             (path_join dir (video_id_of p @ ''_'' @ take 10 (uuid4_hex w) @ ''_error.csv''))
             means \<in> set es"
proof -
  from plot_absolute_error_Inr[OF assms] obtain es1 results p truth est ts es2 where
    l: "load_logs w logs = (es1, Inr results)" and
    rep: "report w (map fst results) p truth est ts save = (es2, Inr u)" and
    es: "es = es1 @ [ReadCsv (p @ ''cars.csv'')] @ es2"
    by blast
  from report_Inr[OF rep] obtain dir out1 fig means where
    dir: "save = Some dir" and
    es2: "es2 = [out1,
            WriteImage
              (path_join dir (video_id_of p @ ''_'' @ take 10 (uuid4_hex w) @ ''_mae.pdf''))
              fig,
            ToCsv
              (path_join dir (video_id_of p @ ''_'' @ take 10 (uuid4_hex w) @ ''_error.csv''))
              means]"
    by blast
  have "WriteImage
          (path_join dir (video_id_of p @ ''_'' @ take 10 (uuid4_hex w) @ ''_mae.pdf''))
          fig \<in> set es"
    and "ToCsv
          (path_join dir (video_id_of p @ ''_'' @ take 10 (uuid4_hex w) @ ''_error.csv''))
          means \<in> set es"
    unfolding es es2 by simp_all
  with dir show ?thesis by blast
qed

text \<open>
  C3 fails on the code. With the empty string as destination the first chart is shown,
  but the error chart and the summary are written, into the working directory: the second
  and third test compare the destination with \<open>None\<close>, not with the empty string.
\<close>

theorem empty_destination_writes_files:
  "plot_absolute_error example_world [''a.log''] (Some []) =
     ([OpenLog ''a.log'', Print ''Found cars path from log: /data/videoA/'',
       ReadCsv ''/data/videoA/cars.csv'',
       ShowFig
         \<lparr>title = ''Absolute Estimations (/data/videoA/)'',
          data_frame = [(''truth'', [Num 40]), (''videoA_depth_0'', [Num 42]),
                        (''timestamps'', [Num 360])],
          x_axis = ''timestamps'',
          y_axis = [''truth'', ''videoA_depth_0'', ''timestamps'']\<rparr>,
       WriteImage ''videoA_0123456789_mae.pdf''
         \<lparr>title = ''Mean Absolute Error (/data/videoA/)'',
          data_frame = [(''truth'', [Num 40]), (''videoA_depth_0'', [Num 2]),
                        (''timestamps'', [Num 360])],
          x_axis = ''timestamps'',
          y_axis = [''videoA_depth_0'', ''timestamps'']\<rparr>,
       ToCsv ''videoA_0123456789_error.csv'' [(''videoA_depth_0'', Num 2)]],
      Inr ())"
  by code_simp

text \<open>
  C4 fails on the code. Two logs of one video get the same run id (the depth tag is always
  0), so the two series share one key and one list of 50 means, and the table of 25 truth
  values cannot be built: the call ends with ValueError.
\<close>

theorem two_runs_same_video_fail:
  "plot_absolute_error example_world [''a.log'', ''b.log''] (Some ''out/'') =
     ([OpenLog ''a.log'', Print ''Found cars path from log: /data/videoA/'',
       OpenLog ''b.log'', Print ''Found cars path from log: /data/videoA/'',
       ReadCsv ''/data/videoA/cars.csv''],
      Inl ValueError)"
  by code_simp

text \<open>The windows without data of a run that has observations, and of the ground truth.\<close>

lemma empty_window_NaN:
  assumes "''frameId'' \<in> set (columns est)" and "''avgSpeedTowards'' \<in> set (columns est)"
    and "filter (\<lambda>r. \<exists>f. cell_of ''frameId'' r = Num f \<and>
                        of_int (s * 50) < f \<and> f \<le> of_int (e * 50)) (rows est) = []"
  shows "avg_speed_for_time_estimation est s e = Inr NaN"
proof -
  have "avg_speed_for_time_estimation est s e =
          Inr (mean (map (cell_of ''avgSpeedTowards'') []))"
    using avg_speed_for_time_estimation_mean[OF assms(1,2), of s e] by (simp only: assms(3))
  then show ?thesis by (simp add: mean_def)
qed

lemma empty_window_truth_NaN:
  "cars_to_avg cars s e = [] \<Longrightarrow> avg_speed_for_time_ground_truth cars s e = NaN"
  by (simp add: avg_speed_for_time_ground_truth_def mean_def)

text \<open>
  C8 fails on the code. A log without one speed record gives a table without columns;
  the estimation aggregator raises KeyError on it for every window, where the claim has it
  return an absence value, and the call ends there.
\<close>

theorem empty_log_raises:
  "avg_speed_for_time_estimation (DataFrame []) s e = Inl (KeyError ''frameId'') \<and>
   plot_absolute_error example_world [''quiet.log''] (Some ''out/'') =
     ([OpenLog ''quiet.log'', Print ''Found cars path from log: /data/videoA/'',
       ReadCsv ''/data/videoA/cars.csv''],
      Inl (KeyError ''frameId''))"
proof -
  have "avg_speed_for_time_estimation (DataFrame []) s e = Inl (KeyError ''frameId'')"
    by (simp add: avg_speed_for_time_estimation_def estimation_avg_def getitem_def
        DataFrame_def)
  moreover have "plot_absolute_error example_world [''quiet.log''] (Some ''out/'') =
     ([OpenLog ''quiet.log'', Print ''Found cars path from log: /data/videoA/'',
       ReadCsv ''/data/videoA/cars.csv''],
      Inl (KeyError ''frameId''))"
    by code_simp
  ultimately show ?thesis by simp
qed

end
